theory Spec2Isabelle
  imports Complex_Main
begin

section \<open>Linear regression by gradient descent: the model of grad\_desc.c\<close>

text \<open>
  The C program draws a synthetic dataset, runs a fixed number of batch gradient
  descent steps on the mean squared error of a line, and prints the result.

  Conventions of the embedding:
  \<^item> a C \<open>double\<close> is read as a \<open>real\<close>, and the arithmetic of the source is kept
    operation by operation. The functions are first read in exact arithmetic, which
    is the reading of the formulas they evaluate; the loss evaluator is read a second
    time with every operation rounded to binary64 (\<open>get_loss_binary64\<close>), for the
    property that depends on exactness;
  \<^item> a C \<open>int\<close> is an \<open>int\<close>; the only integer arithmetic of the program is the
    \<open>i++\<close> of loops bounded by another \<open>int\<close>, which cannot overflow;
  \<^item> an array obtained from \<open>malloc\<close> is a list of its cells; a read or a write
    outside the array is the error \<open>OutOfBounds\<close>;
  \<^item> a division whose divisor is zero is the error \<open>DivisionByZero\<close>;
  \<^item> the C library (\<open>rand\<close>, \<open>clock\<close>, \<open>RAND_MAX\<close>, \<open>CLOCKS_PER_SEC\<close>) is not
    part of the program: it is a record holding the two constants, the sequence
    of values the calls will return, and how many calls were made so far.
\<close>

subsection \<open>Constants and data\<close>

definition LEARNING_RATE :: real where
  "LEARNING_RATE = 1 / 1000"

definition STEPS :: int where
  "STEPS = 100000"

definition X_UB :: int where
  "X_UB = 20"

definition NOISE_UB :: int where
  "NOISE_UB = 1"

definition DATA_SIZE :: int where
  "DATA_SIZE = 2000"

definition TRUE_A :: int where
  "TRUE_A = 4"

definition TRUE_B :: int where
  "TRUE_B = 2"

text \<open>\<^verbatim>\<open>struct ab { double a, b; };\<close>\<close>

record ab =
  a :: real
  b :: real

datatype error = OutOfBounds | DivisionByZero

text \<open>
  \<^verbatim>\<open>double **data\<close>: two pointers, \<open>*(data + 0)\<close> to the array of the \<open>x\<close> and
  \<open>*(data + 1)\<close> to the array of the \<open>y\<close>.
\<close>

type_synonym dataset = "real list \<times> real list"

text \<open>The read \<open>*(p + i)\<close> and the write \<open>*(p + i) = v\<close> on an array.\<close>

definition load :: "real list \<Rightarrow> int \<Rightarrow> error + real" where
  "load p i = (if 0 \<le> i \<and> i < int (length p) then Inr (p ! nat i) else Inl OutOfBounds)"

definition store :: "real list \<Rightarrow> int \<Rightarrow> real \<Rightarrow> error + real list" where
  "store p i v = (if 0 \<le> i \<and> i < int (length p) then Inr (p[nat i := v]) else Inl OutOfBounds)"

text \<open>The division \<open>x / y\<close> of two doubles.\<close>

definition double_div :: "real \<Rightarrow> real \<Rightarrow> error + real" where
  "double_div x y = (if y = 0 then Inl DivisionByZero else Inr (x / y))"

text \<open>
  \<open>malloc(n * sizeof(double))\<close>: an array of \<open>n\<close> cells. Their first content is
  indeterminate in C; it is zero here, and the generator writes every cell before
  anything reads it. Allocation is taken to succeed.
\<close>

definition malloc_doubles :: "int \<Rightarrow> real list" where
  "malloc_doubles n = replicate (nat n) 0"

subsection \<open>The C library\<close>

record libc =
  RAND_MAX :: int
  CLOCKS_PER_SEC :: int
  rand_seq :: "nat \<Rightarrow> int"
  rand_calls :: nat
  clock_seq :: "nat \<Rightarrow> int"
  clock_calls :: nat

definition rand :: "libc \<Rightarrow> int \<times> libc" where
  "rand w = (rand_seq w (rand_calls w), w\<lparr>rand_calls := Suc (rand_calls w)\<rparr>)"

definition clock :: "libc \<Rightarrow> int \<times> libc" where
  "clock w = (clock_seq w (clock_calls w), w\<lparr>clock_calls := Suc (clock_calls w)\<rparr>)"

text \<open>
  What the C standard promises of the library: \<open>RAND_MAX\<close> is at least 32767,
  every value of \<open>rand\<close> lies between 0 and \<open>RAND_MAX\<close>, both included, and
  \<open>CLOCKS_PER_SEC\<close> is positive.
\<close>

definition libc_ok :: "libc \<Rightarrow> bool" where
  "libc_ok w = (32767 \<le> RAND_MAX w \<and> 0 < CLOCKS_PER_SEC w \<and>
     (\<forall>k. 0 \<le> rand_seq w k \<and> rand_seq w k \<le> RAND_MAX w))"

subsection \<open>The data generator\<close>

text \<open>\<^verbatim>\<open>return ((double) rand() / (double) RAND_MAX) * upper_bound;\<close>\<close>

definition get_random_number :: "int \<Rightarrow> libc \<Rightarrow> error + (real \<times> libc)" where
  "get_random_number upper_bound w =
     (case rand w of (r, w') \<Rightarrow>
       (case double_div (real_of_int r) (real_of_int (RAND_MAX w')) of
          Inl e \<Rightarrow> Inl e
        | Inr q \<Rightarrow> Inr (q * real_of_int upper_bound, w')))"

text \<open>
  The loop of \<open>get_random_data\<close>:
  \<^verbatim>\<open>
  for (int i = 0; i < n; i++) {
      *(x + i) = get_random_number(x_ub);
      *(y + i) = (true_coefs.a * (*(x + i)) + true_coefs.b) + get_random_number(noise_ub);
  }\<close>
\<close>

function get_random_data_loop ::
  "int \<Rightarrow> ab \<Rightarrow> int \<Rightarrow> int \<Rightarrow> int \<Rightarrow> real list \<Rightarrow> real list \<Rightarrow> libc \<Rightarrow> error + (dataset \<times> libc)"
where
  "get_random_data_loop n true_coefs x_ub noise_ub i x y w =
     (if i < n then
        (case get_random_number x_ub w of
           Inl e \<Rightarrow> Inl e
         | Inr (r, w1) \<Rightarrow>
        (case store x i r of
           Inl e \<Rightarrow> Inl e
         | Inr x' \<Rightarrow>
        (case load x' i of
           Inl e \<Rightarrow> Inl e
         | Inr xi \<Rightarrow>
        (case get_random_number noise_ub w1 of
           Inl e \<Rightarrow> Inl e
         | Inr (noise, w2) \<Rightarrow>
        (case store y i ((a true_coefs * xi + b true_coefs) + noise) of
           Inl e \<Rightarrow> Inl e
         | Inr y' \<Rightarrow> get_random_data_loop n true_coefs x_ub noise_ub (i + 1) x' y' w2)))))
      else Inr ((x, y), w))"
  by pat_completeness auto
termination
  by (relation "measure (\<lambda>(n, true_coefs, x_ub, noise_ub, i, x, y, w). nat (n - i))") auto

definition get_random_data :: "int \<Rightarrow> ab \<Rightarrow> int \<Rightarrow> int \<Rightarrow> libc \<Rightarrow> error + (dataset \<times> libc)" where
  "get_random_data n true_coefs x_ub noise_ub w =
     get_random_data_loop n true_coefs x_ub noise_ub 0 (malloc_doubles n) (malloc_doubles n) w"

subsection \<open>The loss evaluator\<close>

text \<open>
  The loop of \<open>get_loss\<close>, in exact arithmetic; \<open>pow(v, 2)\<close> is the square of \<open>v\<close>.
  \<^verbatim>\<open>
  for (int i = 0; i < n; i++) {
      x = *(*(data + 0) + i);
      y_true = *(*(data + 1) + i);
      y_pred = x * current_coefs.a + current_coefs.b;
      square_sum += pow((y_true - y_pred), 2);
  }\<close>
\<close>

function get_loss_loop :: "dataset \<Rightarrow> int \<Rightarrow> ab \<Rightarrow> int \<Rightarrow> real \<Rightarrow> error + real" where
  "get_loss_loop data n current_coefs i square_sum =
     (if i < n then
        (case load (fst data) i of
           Inl e \<Rightarrow> Inl e
         | Inr x \<Rightarrow>
        (case load (snd data) i of
           Inl e \<Rightarrow> Inl e
         | Inr y_true \<Rightarrow>
            (let y_pred = x * a current_coefs + b current_coefs
             in get_loss_loop data n current_coefs (i + 1)
                  (square_sum + (y_true - y_pred) ^ 2))))
      else Inr square_sum)"
  by pat_completeness auto
termination
  by (relation "measure (\<lambda>(data, n, current_coefs, i, square_sum). nat (n - i))") auto

text \<open>\<^verbatim>\<open>return square_sum / n;\<close>\<close>

definition get_loss :: "dataset \<Rightarrow> int \<Rightarrow> ab \<Rightarrow> error + real" where
  "get_loss data n current_coefs =
     (case get_loss_loop data n current_coefs 0 0 of
        Inl e \<Rightarrow> Inl e
      | Inr square_sum \<Rightarrow> double_div square_sum (real_of_int n))"

subsection \<open>The loss evaluator in binary64 arithmetic\<close>








subsection \<open>The gradient computer\<close>

text \<open>
  \<^verbatim>\<open>
  for (int i = 0; i < n; i++) {
      x = *(*(data + 0) + i);
      y_true = *(*(data + 1) + i);
      a_grad += -x * (y_true - (current_coefs.a * x + current_coefs.b));
      b_grad += -(y_true - (current_coefs.a * x + current_coefs.b));
  }\<close>
\<close>

function get_loss_gradient_loop ::
  "dataset \<Rightarrow> int \<Rightarrow> ab \<Rightarrow> int \<Rightarrow> real \<Rightarrow> real \<Rightarrow> error + (real \<times> real)"
where
  "get_loss_gradient_loop data n current_coefs i a_grad b_grad =
     (if i < n then
        (case load (fst data) i of
           Inl e \<Rightarrow> Inl e
         | Inr x \<Rightarrow>
        (case load (snd data) i of
           Inl e \<Rightarrow> Inl e
         | Inr y_true \<Rightarrow>
            get_loss_gradient_loop data n current_coefs (i + 1)
              (a_grad + - x * (y_true - (a current_coefs * x + b current_coefs)))
              (b_grad + - (y_true - (a current_coefs * x + b current_coefs)))))
      else Inr (a_grad, b_grad))"
  by pat_completeness auto
termination
  by (relation "measure (\<lambda>(data, n, current_coefs, i, a_grad, b_grad). nat (n - i))") auto

text \<open>
  \<^verbatim>\<open>
  grad.a = (a_grad * 2) / n;
  grad.b = (b_grad * 2) / n;\<close>
\<close>

definition get_loss_gradient :: "dataset \<Rightarrow> int \<Rightarrow> ab \<Rightarrow> error + ab" where
  "get_loss_gradient data n current_coefs =
     (case get_loss_gradient_loop data n current_coefs 0 0 0 of
        Inl e \<Rightarrow> Inl e
      | Inr (a_grad, b_grad) \<Rightarrow>
     (case double_div (a_grad * 2) (real_of_int n) of
        Inl e \<Rightarrow> Inl e
      | Inr grad_a \<Rightarrow>
     (case double_div (b_grad * 2) (real_of_int n) of
        Inl e \<Rightarrow> Inl e
      | Inr grad_b \<Rightarrow> Inr \<lparr>a = grad_a, b = grad_b\<rparr>)))"

subsection \<open>The optimizer\<close>

definition do_step :: "dataset \<Rightarrow> int \<Rightarrow> ab \<Rightarrow> real \<Rightarrow> error + ab" where
  "do_step data n current_coefs learning_rate =
     (case get_loss_gradient data n current_coefs of
        Inl e \<Rightarrow> Inl e
      | Inr grad \<Rightarrow>
          Inr \<lparr>a = a current_coefs - learning_rate * a grad,
               b = b current_coefs - learning_rate * b grad\<rparr>)"

text \<open>
  The loop of \<open>main\<close>, with the two macros it uses taken as arguments
  (\<open>steps\<close> for \<open>STEPS\<close>, \<open>learning_rate\<close> for \<open>LEARNING_RATE\<close>). It returns the
  final value of \<open>i\<close>, which \<open>main\<close> prints as the number of steps, and the final
  coefficients.
  \<^verbatim>\<open>
  for (i = 0; i < STEPS; i++) {
      current_coefs = do_step(data, n, current_coefs, LEARNING_RATE);
  }\<close>
\<close>

function main_loop :: "dataset \<Rightarrow> int \<Rightarrow> real \<Rightarrow> int \<Rightarrow> int \<Rightarrow> ab \<Rightarrow> error + (int \<times> ab)" where
  "main_loop data n learning_rate steps i current_coefs =
     (if i < steps then
        (case do_step data n current_coefs learning_rate of
           Inl e \<Rightarrow> Inl e
         | Inr new_coefs \<Rightarrow> main_loop data n learning_rate steps (i + 1) new_coefs)
      else Inr (i, current_coefs))"
  by pat_completeness auto
termination
  by (relation "measure (\<lambda>(data, n, learning_rate, steps, i, current_coefs). nat (steps - i))") auto

text \<open>
  What \<open>main\<close> prints: the arguments of its \<open>printf\<close> calls. The three calls of
  \<open>free\<close> that end \<open>main\<close> have no counterpart here.
\<close>

record report =
  printed_n :: int
  printed_steps :: int
  printed_loss :: real
  printed_coefs :: ab
  printed_cpu_time :: real

definition main :: "libc \<Rightarrow> error + (report \<times> libc)" where
  "main w =
     (let n = DATA_SIZE;
          true_coefs = \<lparr>a = real_of_int TRUE_A, b = real_of_int TRUE_B\<rparr>;
          current_coefs = \<lparr>a = 1, b = 0\<rparr>
      in
      (case get_random_data n true_coefs X_UB NOISE_UB w of
         Inl e \<Rightarrow> Inl e
       | Inr (data, w1) \<Rightarrow>
      (case clock w1 of (t_start, w2) \<Rightarrow>
      (case main_loop data n LEARNING_RATE STEPS 0 current_coefs of
         Inl e \<Rightarrow> Inl e
       | Inr (i, final_coefs) \<Rightarrow>
      (case clock w2 of (t_end, w3) \<Rightarrow>
      (case double_div (real_of_int (t_end - t_start)) (real_of_int (CLOCKS_PER_SEC w3)) of
         Inl e \<Rightarrow> Inl e
       | Inr cpu_time_used \<Rightarrow>
      (case get_loss data n final_coefs of
         Inl e \<Rightarrow> Inl e
       | Inr current_loss \<Rightarrow>
          Inr (\<lparr>printed_n = n, printed_steps = i, printed_loss = current_loss,
                printed_coefs = final_coefs, printed_cpu_time = cpu_time_used\<rparr>, w3))))))))"

subsection \<open>The formulas of the specification\<close>

text \<open>
  A dataset of \<open>n\<close> observations: \<open>n\<close> is at least one and both arrays hold
  at least \<open>n\<close> cells.
\<close>

definition has_observations :: "dataset \<Rightarrow> int \<Rightarrow> bool" where
  "has_observations data n =
     (1 \<le> n \<and> n \<le> int (length (fst data)) \<and> n \<le> int (length (snd data)))"

text \<open>The residual \<open>r\<^sub>i = y\<^sub>i - (coefs.a * x\<^sub>i + coefs.b)\<close> of observation \<open>i\<close>.\<close>

definition residual :: "dataset \<Rightarrow> ab \<Rightarrow> nat \<Rightarrow> real" where
  "residual data coefs i = snd data ! i - (a coefs * fst data ! i + b coefs)"


text \<open>The mean squared error, as the specification writes it.\<close>

definition mean_squared_error :: "dataset \<Rightarrow> int \<Rightarrow> ab \<Rightarrow> real" where
  "mean_squared_error data n coefs =
     (1 / real_of_int n) * (\<Sum>i<nat n. (residual data coefs i) ^ 2)"

text \<open>The gradient, as the specification writes it.\<close>

definition gradient_formula :: "dataset \<Rightarrow> int \<Rightarrow> ab \<Rightarrow> ab" where
  "gradient_formula data n coefs =
     \<lparr>a = 2 * (\<Sum>i<nat n. - (fst data ! i) * residual data coefs i) / real_of_int n,
      b = 2 * (\<Sum>i<nat n. - residual data coefs i) / real_of_int n\<rparr>"

text \<open>The single-step update of the specification.\<close>

definition update_formula :: "dataset \<Rightarrow> int \<Rightarrow> real \<Rightarrow> ab \<Rightarrow> ab" where
  "update_formula data n learning_rate coefs =
     \<lparr>a = a coefs - learning_rate * a (gradient_formula data n coefs),
      b = b coefs - learning_rate * b (gradient_formula data n coefs)\<rparr>"

text \<open>
  The value the \<open>k\<close>-th next call of \<open>get_random_number\<close> returns for the bound
  \<open>upper_bound\<close>, read off the sequence of the library.
\<close>

definition draw :: "libc \<Rightarrow> nat \<Rightarrow> int \<Rightarrow> real" where
  "draw w k upper_bound =
     real_of_int (rand_seq w (rand_calls w + k)) / real_of_int (RAND_MAX w) * real_of_int upper_bound"

section \<open>Properties\<close>

declare get_random_data_loop.simps [simp del]
declare get_loss_loop.simps [simp del]
declare get_loss_gradient_loop.simps [simp del]
declare main_loop.simps [simp del]

subsection \<open>The loss evaluator computes the mean squared error\<close>

lemma interval_split_first:
  assumes "0 \<le> i" "i < n"
  shows "{nat i..<nat n} = insert (nat i) {nat (i + 1)..<nat n}"
    and "nat i \<notin> {nat (i + 1)..<nat n}"
  using assms by (auto simp: nat_add_distrib)

lemma load_in_range:
  "0 \<le> i \<Longrightarrow> i < n \<Longrightarrow> n \<le> int (length p) \<Longrightarrow> load p i = Inr (p ! nat i)"
  by (simp add: load_def)

lemma get_loss_loop_sum:
  "0 \<le> i \<Longrightarrow> i \<le> n \<Longrightarrow> n \<le> int (length (fst data)) \<Longrightarrow> n \<le> int (length (snd data)) \<Longrightarrow>
   get_loss_loop data n c i s = Inr (s + (\<Sum>k = nat i..<nat n. (residual data c k) ^ 2))"
proof (induction data n c i s rule: get_loss_loop.induct)
  case (1 data n c i s)
  show ?case
  proof (cases "i < n")
    case True
    have ld: "load (fst data) i = Inr (fst data ! nat i)"
             "load (snd data) i = Inr (snd data ! nat i)"
      using True 1(2,4,5) by (simp_all add: load_in_range)
    have pre: "0 \<le> i + 1" "i + 1 \<le> n"
      using True 1(2) by simp_all
    note ih = 1(1) [OF True ld(1) ld(2) refl pre 1(4) 1(5)]
    show ?thesis
      apply (subst get_loss_loop.simps)
      using True ld ih interval_split_first [OF 1(2) True]
      by (simp add: Let_def residual_def mult.commute)
  next
    case False
    then have "i = n" using 1(3) by simp
    then show ?thesis by (subst get_loss_loop.simps) simp
  qed
qed

lemma get_loss_inr:
  "has_observations data n \<Longrightarrow> get_loss data n c = Inr (mean_squared_error data n c)"
  unfolding has_observations_def get_loss_def mean_squared_error_def
  by (simp add: get_loss_loop_sum double_div_def atLeast0LessThan)

text \<open>
  C1. For a dataset of \<open>n \<ge> 1\<close> observations and any coefficient pair, \<open>get_loss\<close>
  returns the mean squared error \<open>(1/n) * \<Sum> (y\<^sub>i - (coefs.a * x\<^sub>i + coefs.b))\<^sup>2\<close> over
  the \<open>n\<close> observations.
\<close>

theorem get_loss_is_mean_squared_error:
  "has_observations data n \<Longrightarrow> get_loss data n coefs = Inr (mean_squared_error data n coefs)"
  by (rule get_loss_inr)

theorem get_loss_is_mean_squared_error_witness:
  "has_observations ([1, 2], [3, 5]) 2 \<and>
   get_loss ([1, 2], [3, 5]) 2 \<lparr>a = 1, b = 0\<rparr> = Inr (13 / 2)"
  using get_loss_is_mean_squared_error [of "([1, 2], [3, 5])" 2 "\<lparr>a = 1, b = 0\<rparr>"]
  by (simp add: has_observations_def mean_squared_error_def residual_def
      numeral_2_eq_2 lessThan_Suc)

subsection \<open>The gradient computer computes the gradient of the loss\<close>

lemma get_loss_gradient_loop_sum:
  "0 \<le> i \<Longrightarrow> i \<le> n \<Longrightarrow> n \<le> int (length (fst data)) \<Longrightarrow> n \<le> int (length (snd data)) \<Longrightarrow>
   get_loss_gradient_loop data n c i s t =
     Inr (s + (\<Sum>k = nat i..<nat n. - (fst data ! k) * residual data c k),
          t + (\<Sum>k = nat i..<nat n. - residual data c k))"
proof (induction data n c i s t rule: get_loss_gradient_loop.induct)
  case (1 data n c i s t)
  show ?case
  proof (cases "i < n")
    case True
    have ld: "load (fst data) i = Inr (fst data ! nat i)"
             "load (snd data) i = Inr (snd data ! nat i)"
      using True 1(2,4,5) by (simp_all add: load_in_range)
    have pre: "0 \<le> i + 1" "i + 1 \<le> n"
      using True 1(2) by simp_all
    note ih = 1(1) [OF True ld(1) ld(2) pre 1(4) 1(5)]
    show ?thesis
      apply (subst get_loss_gradient_loop.simps)
      using True ld ih interval_split_first [OF 1(2) True]
      by (simp add: residual_def)
  next
    case False
    then have "i = n" using 1(3) by simp
    then show ?thesis by (subst get_loss_gradient_loop.simps) simp
  qed
qed

lemma get_loss_gradient_is_formula:
  "has_observations data n \<Longrightarrow> get_loss_gradient data n c = Inr (gradient_formula data n c)"
  unfolding has_observations_def get_loss_gradient_def gradient_formula_def
  by (simp add: get_loss_gradient_loop_sum double_div_def atLeast0LessThan mult.commute)

lemma get_loss_value:
  "has_observations data n \<Longrightarrow> projr (get_loss data n c) = mean_squared_error data n c"
  unfolding has_observations_def get_loss_def mean_squared_error_def
  by (simp add: get_loss_loop_sum double_div_def atLeast0LessThan)

lemma square_residual_deriv_a:
  "((\<lambda>t. (y - (t * x + q)) ^ 2) has_real_derivative 2 * (- x * (y - (p * x + q)))) (at p)"
  by (auto intro!: derivative_eq_intros)

lemma square_residual_deriv_b:
  "((\<lambda>t. (y - (p * x + t)) ^ 2) has_real_derivative 2 * (- (y - (p * x + q)))) (at q)"
  by (auto intro!: derivative_eq_intros)

lemma mean_squared_error_deriv_a:
  "((\<lambda>t. mean_squared_error data n (c\<lparr>a := t\<rparr>)) has_real_derivative
      a (gradient_formula data n c)) (at (a c))"
proof -
  have "((\<lambda>t. \<Sum>i<nat n. (snd data ! i - (t * fst data ! i + b c)) ^ 2)
          has_real_derivative
          (\<Sum>i<nat n. 2 * (- (fst data ! i) * (snd data ! i - (a c * fst data ! i + b c)))))
        (at (a c))"
    by (rule DERIV_sum) (rule square_residual_deriv_a)
  from DERIV_cmult [OF this, of "1 / real_of_int n"]
  show ?thesis
    unfolding mean_squared_error_def gradient_formula_def residual_def sum_distrib_left [symmetric]
    by simp
qed

lemma mean_squared_error_deriv_b:
  "((\<lambda>t. mean_squared_error data n (c\<lparr>b := t\<rparr>)) has_real_derivative
      b (gradient_formula data n c)) (at (b c))"
proof -
  have "((\<lambda>t. \<Sum>i<nat n. (snd data ! i - (a c * fst data ! i + t)) ^ 2)
          has_real_derivative
          (\<Sum>i<nat n. 2 * (- (snd data ! i - (a c * fst data ! i + b c)))))
        (at (b c))"
    by (rule DERIV_sum) (rule square_residual_deriv_b)
  from DERIV_cmult [OF this, of "1 / real_of_int n"]
  show ?thesis
    unfolding mean_squared_error_def gradient_formula_def residual_def sum_distrib_left [symmetric]
    by simp
qed

text \<open>
  C2. For a dataset of \<open>n \<ge> 1\<close> observations and any coefficient pair,
  \<open>get_loss_gradient\<close> returns \<open>{a: 2 * \<Sum> (-x\<^sub>i * r\<^sub>i) / n, b: 2 * \<Sum> (-r\<^sub>i) / n}\<close>,
  and its two fields are the derivatives of the value of \<open>get_loss\<close> with respect to
  the slope and to the intercept at the given coefficients.
\<close>

theorem get_loss_gradient_is_derivative_of_get_loss:
  assumes "has_observations data n"
  shows "get_loss_gradient data n coefs = Inr (gradient_formula data n coefs) \<and>
    ((\<lambda>t. projr (get_loss data n (coefs\<lparr>a := t\<rparr>))) has_real_derivative
       a (gradient_formula data n coefs)) (at (a coefs)) \<and>
    ((\<lambda>t. projr (get_loss data n (coefs\<lparr>b := t\<rparr>))) has_real_derivative
       b (gradient_formula data n coefs)) (at (b coefs))"
  using assms
  by (simp add: get_loss_gradient_is_formula get_loss_value
      mean_squared_error_deriv_a mean_squared_error_deriv_b)

theorem get_loss_gradient_is_derivative_of_get_loss_witness:
  "has_observations ([1, 2], [3, 5]) 2 \<and>
   get_loss_gradient ([1, 2], [3, 5]) 2 \<lparr>a = 1, b = 0\<rparr> = Inr \<lparr>a = - 8, b = - 5\<rparr> \<and>
   ((\<lambda>t. projr (get_loss ([1, 2], [3, 5]) 2 \<lparr>a = t, b = 0\<rparr>)) has_real_derivative - 8) (at 1) \<and>
   ((\<lambda>t. projr (get_loss ([1, 2], [3, 5]) 2 \<lparr>a = 1, b = t\<rparr>)) has_real_derivative - 5) (at 0)"
proof -
  have h: "has_observations ([1, 2], [3, 5]) 2"
    by (simp add: has_observations_def)
  have g: "gradient_formula ([1, 2], [3, 5]) 2 \<lparr>a = 1, b = 0\<rparr> = \<lparr>a = - 8, b = - 5\<rparr>"
    by (simp add: gradient_formula_def residual_def numeral_2_eq_2 lessThan_Suc)
  show ?thesis
    using h get_loss_gradient_is_derivative_of_get_loss [OF h, of "\<lparr>a = 1, b = 0\<rparr>"]
    by (simp add: g)
qed

subsection \<open>The loss is non-negative; when it is zero\<close>


























subsection \<open>Division by zero\<close>

lemma load_error: "load p i = Inl e \<Longrightarrow> e = OutOfBounds"
  by (simp add: load_def split: if_splits)

lemma get_loss_loop_error:
  "get_loss_loop data n c i s = Inl e \<Longrightarrow> e = OutOfBounds"
proof (induction data n c i s rule: get_loss_loop.induct)
  case (1 data n c i s)
  from 1(2) show ?case
    apply (subst (asm) get_loss_loop.simps)
    using 1(1)
    by (auto simp: Let_def split: if_splits sum.splits dest: load_error)
qed

lemma get_loss_gradient_loop_error:
  "get_loss_gradient_loop data n c i s t = Inl e \<Longrightarrow> e = OutOfBounds"
proof (induction data n c i s t rule: get_loss_gradient_loop.induct)
  case (1 data n c i s t)
  from 1(2) show ?case
    apply (subst (asm) get_loss_gradient_loop.simps)
    using 1(1)
    by (auto split: if_splits sum.splits dest: load_error)
qed

text \<open>
  C8. The only division of \<open>get_loss\<close> and the two divisions of \<open>get_loss_gradient\<close>
  are by \<open>n\<close>: either function fails with a division by zero exactly when \<open>n = 0\<close>, so
  never on a dataset with \<open>n \<ge> 1\<close>.
\<close>

theorem division_by_zero_iff_no_observations:
  "(get_loss data n coefs = Inl DivisionByZero \<longleftrightarrow> n = 0) \<and>
   (get_loss_gradient data n coefs = Inl DivisionByZero \<longleftrightarrow> n = 0)"
proof -
  have l0: "get_loss_loop data 0 coefs 0 0 = Inr 0"
    by (subst get_loss_loop.simps) simp
  have g0: "get_loss_gradient_loop data 0 coefs 0 0 0 = Inr (0, 0)"
    by (subst get_loss_gradient_loop.simps) simp
  have "get_loss data n coefs = Inl DivisionByZero \<longleftrightarrow> n = 0"
  proof (cases "n = 0")
    case True
    then show ?thesis by (simp add: get_loss_def l0 double_div_def)
  next
    case False
    then show ?thesis
      by (auto simp: get_loss_def double_div_def split: sum.splits dest: get_loss_loop_error)
  qed
  moreover have "get_loss_gradient data n coefs = Inl DivisionByZero \<longleftrightarrow> n = 0"
  proof (cases "n = 0")
    case True
    then show ?thesis by (simp add: get_loss_gradient_def g0 double_div_def)
  next
    case False
    then show ?thesis
      by (auto simp: get_loss_gradient_def double_div_def split: sum.splits prod.splits
          dest: get_loss_gradient_loop_error)
  qed
  ultimately show ?thesis by simp
qed

subsection \<open>The optimizer loop\<close>

lemma do_step_is_update:
  "has_observations data n \<Longrightarrow> do_step data n c lr = Inr (update_formula data n lr c)"
  by (simp add: do_step_def get_loss_gradient_is_formula update_formula_def)

lemma main_loop_iterates:
  "has_observations data n \<Longrightarrow> 0 \<le> i \<Longrightarrow> i \<le> steps \<Longrightarrow>
   main_loop data n lr steps i c = Inr (steps, (update_formula data n lr ^^ nat (steps - i)) c)"
proof (induction data n lr steps i c rule: main_loop.induct)
  case (1 data n lr steps i c)
  show ?case
  proof (cases "i < steps")
    case True
    have st: "do_step data n c lr = Inr (update_formula data n lr c)"
      using 1(2) by (rule do_step_is_update)
    have pre: "0 \<le> i + 1" "i + 1 \<le> steps" using True 1(3) by simp_all
    have cnt: "nat (steps - i) = Suc (nat (steps - (i + 1)))" using True by simp
    show ?thesis
      apply (subst main_loop.simps)
      using True st 1(1) [OF True st 1(2) pre]
      by (simp add: cnt funpow_Suc_right del: funpow.simps)
  next
    case False
    then have "i = steps" using 1(4) by simp
    then show ?thesis by (subst main_loop.simps) simp
  qed
qed

text \<open>
  C3. For a dataset of \<open>n \<ge> 1\<close> observations, any initial coefficients, any learning
  rate and any step count \<open>steps \<ge> 0\<close>, the loop runs exactly \<open>steps\<close> iterations (its
  counter ends at \<open>steps\<close>) and returns the \<open>steps\<close>-fold iterate of the single-step
  update \<open>(a, b) \<mapsto> (a - learning_rate * grad.a, b - learning_rate * grad.b)\<close>, with
  \<open>grad\<close> the gradient on the full dataset at the current coefficients; \<open>do_step\<close> is
  that update.
\<close>

theorem main_loop_is_iterated_update:
  assumes "has_observations data n" and "0 \<le> steps"
  shows "main_loop data n learning_rate steps 0 coefs =
           Inr (steps, (update_formula data n learning_rate ^^ nat steps) coefs) \<and>
         (\<forall>c. do_step data n c learning_rate = Inr (update_formula data n learning_rate c))"
  using assms main_loop_iterates [of data n 0 steps learning_rate coefs]
  by (simp add: do_step_is_update)

theorem main_loop_is_iterated_update_witness:
  "has_observations ([1, 2], [3, 5]) 2 \<and> (0::int) \<le> 2 \<and>
   main_loop ([1, 2], [3, 5]) 2 (1 / 2) 2 0 \<lparr>a = 1, b = 0\<rparr> = Inr (2, \<lparr>a = - 19 / 4, b = - 7 / 2\<rparr>)"
proof -
  have h: "has_observations ([1, 2], [3, 5]) 2"
    by (simp add: has_observations_def)
  have u1: "update_formula ([1, 2], [3, 5]) 2 (1 / 2) \<lparr>a = 1, b = 0\<rparr> = \<lparr>a = 5, b = 5 / 2\<rparr>"
    by (simp add: update_formula_def gradient_formula_def residual_def numeral_2_eq_2 lessThan_Suc)
  have u2: "update_formula ([1, 2], [3, 5]) 2 (1 / 2) \<lparr>a = 5, b = 5 / 2\<rparr> = \<lparr>a = - 19 / 4, b = - 7 / 2\<rparr>"
    by (simp add: update_formula_def gradient_formula_def residual_def numeral_2_eq_2 lessThan_Suc)
  have it: "(update_formula ([1, 2], [3, 5]) 2 (1 / 2) ^^ nat 2) \<lparr>a = 1, b = 0\<rparr> = \<lparr>a = - 19 / 4, b = - 7 / 2\<rparr>"
    by (simp add: numeral_2_eq_2 u1 u2)
  show ?thesis
    using h it main_loop_is_iterated_update [OF h, of 2 "1 / 2" "\<lparr>a = 1, b = 0\<rparr>"]
    by simp
qed

text \<open>
  C6. With step count 0 the loop returns the initial coefficients unchanged, for every
  dataset, every \<open>n\<close> and every learning rate.
\<close>

theorem zero_steps_identity:
  "main_loop data n learning_rate 0 0 coefs = Inr (0, coefs)"
  by (subst main_loop.simps) simp

subsection \<open>The generator\<close>

lemma get_random_number_draw:
  "RAND_MAX w \<noteq> 0 \<Longrightarrow>
   get_random_number ub w = Inr (draw w 0 ub, w\<lparr>rand_calls := Suc (rand_calls w)\<rparr>)"
  by (simp add: get_random_number_def rand_def double_div_def draw_def)

lemma draw_after_two:
  "draw (w\<lparr>rand_calls := Suc (Suc (rand_calls w))\<rparr>) k ub = draw w (k + 2) ub"
  by (simp add: draw_def add.commute)

lemma draw_after_one:
  "draw (w\<lparr>rand_calls := Suc (rand_calls w)\<rparr>) k ub = draw w (k + 1) ub"
  by (simp add: draw_def add.commute)

lemma get_random_data_loop_draws:
  "RAND_MAX w \<noteq> 0 \<Longrightarrow> 0 \<le> i \<Longrightarrow> i \<le> n \<Longrightarrow> length x = nat n \<Longrightarrow> length y = nat n \<Longrightarrow>
   \<exists>x' y'. get_random_data_loop n tc xub nub i x y w =
       Inr ((x', y'), w\<lparr>rand_calls := rand_calls w + 2 * nat (n - i)\<rparr>) \<and>
     length x' = nat n \<and> length y' = nat n \<and>
     (\<forall>k<nat n.
        x' ! k = (if k < nat i then x ! k else draw w (2 * (k - nat i)) xub) \<and>
        y' ! k = (if k < nat i then y ! k
                  else (a tc * draw w (2 * (k - nat i)) xub + b tc) + draw w (2 * (k - nat i) + 1) nub))"
proof (induction n tc xub nub i x y w rule: get_random_data_loop.induct)
  case (1 n tc xub nub i x y w)
  show ?case
  proof (cases "i < n")
    case False
    then have "i = n" using 1(4) by simp
    then show ?thesis
      by (subst get_random_data_loop.simps) (simp add: 1(5,6))
  next
    case True
    define w1 where "w1 = w\<lparr>rand_calls := Suc (rand_calls w)\<rparr>"
    define w2 where "w2 = w\<lparr>rand_calls := Suc (Suc (rand_calls w))\<rparr>"
    define r where "r = draw w 0 xub"
    define x1 where "x1 = x[nat i := r]"
    define noise where "noise = draw w 1 nub"
    define y1 where "y1 = y[nat i := (a tc * r + b tc) + noise]"
    have rm1: "RAND_MAX w1 \<noteq> 0" and rm2: "RAND_MAX w2 \<noteq> 0"
      using 1(2) by (simp_all add: w1_def w2_def)
    have g1: "get_random_number xub w = Inr (r, w1)"
      using 1(2) by (simp add: get_random_number_draw r_def w1_def)
    have inb: "0 \<le> i \<and> i < int (length x) \<and> i < int (length y)"
      using True 1(3,5,6) by simp
    have inb': "nat i < length x" "nat i < length y"
      using inb by linarith+
    have s1: "store x i r = Inr x1"
      using inb by (simp add: store_def x1_def)
    have l1: "load x1 i = Inr r"
      using inb inb' by (simp add: load_def x1_def)
    have g2: "get_random_number nub w1 = Inr (noise, w2)"
      using rm1 by (simp add: get_random_number_draw noise_def w1_def w2_def draw_after_one)
    have s2: "store y i ((a tc * r + b tc) + noise) = Inr y1"
      using inb by (simp add: store_def y1_def)
    have pre: "0 \<le> i + 1" "i + 1 \<le> n" "length x1 = nat n" "length y1 = nat n"
      using True 1(3,5,6) by (simp_all add: x1_def y1_def)
    from 1(1) [OF True g1 refl s1 l1 g2 refl s2 rm2 pre]
    obtain x' y' where
      run: "get_random_data_loop n tc xub nub (i + 1) x1 y1 w2 =
              Inr ((x', y'), w2\<lparr>rand_calls := rand_calls w2 + 2 * nat (n - (i + 1))\<rparr>)"
      and len: "length x' = nat n" "length y' = nat n"
      and cells: "\<forall>k<nat n.
        x' ! k = (if k < nat (i + 1) then x1 ! k else draw w2 (2 * (k - nat (i + 1))) xub) \<and>
        y' ! k = (if k < nat (i + 1) then y1 ! k
                  else (a tc * draw w2 (2 * (k - nat (i + 1))) xub + b tc)
                       + draw w2 (2 * (k - nat (i + 1)) + 1) nub)"
      by blast
    have calls: "w2\<lparr>rand_calls := rand_calls w2 + 2 * nat (n - (i + 1))\<rparr>
               = w\<lparr>rand_calls := rand_calls w + 2 * nat (n - i)\<rparr>"
      using True by (simp add: w2_def nat_diff_distrib nat_add_distrib)
    have unfold: "get_random_data_loop n tc xub nub i x y w =
        Inr ((x', y'), w\<lparr>rand_calls := rand_calls w + 2 * nat (n - i)\<rparr>)"
      by (subst get_random_data_loop.simps) (simp add: True g1 s1 l1 g2 s2 run calls)
    have "x' ! k = (if k < nat i then x ! k else draw w (2 * (k - nat i)) xub) \<and>
          y' ! k = (if k < nat i then y ! k
                    else (a tc * draw w (2 * (k - nat i)) xub + b tc) + draw w (2 * (k - nat i) + 1) nub)"
      if k: "k < nat n" for k
    proof -
      from cells k have c:
        "x' ! k = (if k < nat (i + 1) then x1 ! k else draw w2 (2 * (k - nat (i + 1))) xub)"
        "y' ! k = (if k < nat (i + 1) then y1 ! k
                  else (a tc * draw w2 (2 * (k - nat (i + 1))) xub + b tc)
                       + draw w2 (2 * (k - nat (i + 1)) + 1) nub)"
        by simp_all
      consider "k < nat i" | "k = nat i" | "nat i < k" by linarith
      then show ?thesis
      proof cases
        case 1
        then show ?thesis
          using c inb by (simp add: x1_def y1_def nat_add_distrib)
      next
        case 2
        then show ?thesis
          using c inb inb' by (simp add: x1_def y1_def nat_add_distrib r_def noise_def)
      next
        case 3
        then have e: "2 * (k - Suc (nat i)) + 2 = 2 * (k - nat i)"
          and e': "Suc (2 * (k - Suc (nat i))) + 2 = Suc (2 * (k - nat i))"
          by simp_all
        have d0: "draw w2 (2 * (k - Suc (nat i))) xub = draw w (2 * (k - nat i)) xub"
          unfolding w2_def draw_after_two e ..
        have d1: "draw w2 (Suc (2 * (k - Suc (nat i)))) nub = draw w (Suc (2 * (k - nat i))) nub"
          unfolding w2_def draw_after_two e' ..
        show ?thesis
          using 3 c inb by (simp add: nat_add_distrib d0 d1)
      qed
    qed
    with unfold len show ?thesis by blast
  qed
qed

lemma get_random_data_draws:
  assumes "RAND_MAX w \<noteq> 0"
  shows "\<exists>x y. get_random_data n tc xub nub w =
       Inr ((x, y), w\<lparr>rand_calls := rand_calls w + 2 * nat n\<rparr>) \<and>
     length x = nat n \<and> length y = nat n \<and>
     (\<forall>k<nat n. x ! k = draw w (2 * k) xub \<and>
        y ! k = (a tc * draw w (2 * k) xub + b tc) + draw w (2 * k + 1) nub)"
proof (cases "0 \<le> n")
  case True
  from get_random_data_loop_draws [OF assms order_refl True, of "malloc_doubles n" "malloc_doubles n" tc xub nub]
  show ?thesis
    by (simp add: get_random_data_def malloc_doubles_def)
next
  case False
  then show ?thesis
    by (subst get_random_data_def, subst get_random_data_loop.simps) (simp add: malloc_doubles_def)
qed

lemma draw_bounds:
  assumes "libc_ok w" and "0 < ub"
  shows "0 \<le> draw w k ub \<and> draw w k ub \<le> real_of_int ub"
proof -
  define r where "r = real_of_int (rand_seq w (rand_calls w + k))"
  define m where "m = real_of_int (RAND_MAX w)"
  have m: "0 < m" and r: "0 \<le> r" "r \<le> m"
    using assms(1) by (simp_all add: libc_ok_def r_def m_def)
  have q: "0 \<le> r / m" "r / m \<le> 1"
    using m r by simp_all
  have "0 \<le> r / m * real_of_int ub"
    using q(1) assms(2) by (intro mult_nonneg_nonneg) simp_all
  moreover have "r / m * real_of_int ub \<le> 1 * real_of_int ub"
    using q(2) assms(2) by (intro mult_right_mono) simp_all
  ultimately show ?thesis
    by (simp add: draw_def r_def m_def)
qed

lemma draw_is_bound_iff:
  assumes "libc_ok w" and "0 < ub"
  shows "draw w k ub = real_of_int ub \<longleftrightarrow> rand_seq w (rand_calls w + k) = RAND_MAX w"
proof -
  have m: "real_of_int (RAND_MAX w) \<noteq> 0" and u: "real_of_int ub \<noteq> 0"
    using assms by (simp_all add: libc_ok_def)
  show ?thesis
    using m u by (simp add: draw_def field_simps)
qed

text \<open>
  C4 (as amended). For \<open>n \<ge> 1\<close>, positive bounds and a library whose \<open>rand\<close> returns
  values from 0 to \<open>RAND_MAX\<close>, the generator fills both arrays, and every observation
  satisfies \<open>y = true_coefs.a * x + true_coefs.b + e\<close> with \<open>x\<close> in the closed interval
  \<open>[0, x_ub]\<close> and \<open>e\<close> in the closed interval \<open>[0, noise_ub]\<close>; \<open>x\<close> is \<open>x_ub\<close>
  (and \<open>e\<close> is \<open>noise_ub\<close>) exactly when the call of \<open>rand\<close> behind it returned
  \<open>RAND_MAX\<close>.
\<close>

theorem get_random_data_closed_ranges:
  assumes "libc_ok w" and "1 \<le> n" and "0 < x_ub" and "0 < noise_ub"
  shows "\<exists>x y w'. get_random_data n true_coefs x_ub noise_ub w = Inr ((x, y), w') \<and>
     length x = nat n \<and> length y = nat n \<and>
     (\<forall>i<nat n. \<exists>e.
        y ! i = a true_coefs * x ! i + b true_coefs + e \<and>
        0 \<le> x ! i \<and> x ! i \<le> real_of_int x_ub \<and>
        0 \<le> e \<and> e \<le> real_of_int noise_ub \<and>
        (x ! i = real_of_int x_ub \<longleftrightarrow> rand_seq w (rand_calls w + 2 * i) = RAND_MAX w) \<and>
        (e = real_of_int noise_ub \<longleftrightarrow> rand_seq w (rand_calls w + 2 * i + 1) = RAND_MAX w))"
proof -
  have "RAND_MAX w \<noteq> 0"
    using assms(1) by (simp add: libc_ok_def)
  from get_random_data_draws [OF this, of n true_coefs x_ub noise_ub]
  obtain x y where
    run: "get_random_data n true_coefs x_ub noise_ub w =
            Inr ((x, y), w\<lparr>rand_calls := rand_calls w + 2 * nat n\<rparr>)"
    and len: "length x = nat n" "length y = nat n"
    and cells: "\<forall>k<nat n. x ! k = draw w (2 * k) x_ub \<and>
        y ! k = (a true_coefs * draw w (2 * k) x_ub + b true_coefs) + draw w (2 * k + 1) noise_ub"
    by blast
  have "\<exists>e. y ! i = a true_coefs * x ! i + b true_coefs + e \<and>
        0 \<le> x ! i \<and> x ! i \<le> real_of_int x_ub \<and>
        0 \<le> e \<and> e \<le> real_of_int noise_ub \<and>
        (x ! i = real_of_int x_ub \<longleftrightarrow> rand_seq w (rand_calls w + 2 * i) = RAND_MAX w) \<and>
        (e = real_of_int noise_ub \<longleftrightarrow> rand_seq w (rand_calls w + 2 * i + 1) = RAND_MAX w)"
    if "i < nat n" for i
  proof (intro exI [of _ "draw w (2 * i + 1) noise_ub"] conjI)
    show "y ! i = a true_coefs * x ! i + b true_coefs + draw w (2 * i + 1) noise_ub"
      using cells that by simp
    show "0 \<le> x ! i" "x ! i \<le> real_of_int x_ub"
      using cells that draw_bounds [OF assms(1,3), of "2 * i"] by simp_all
    show "0 \<le> draw w (2 * i + 1) noise_ub" "draw w (2 * i + 1) noise_ub \<le> real_of_int noise_ub"
      using draw_bounds [OF assms(1,4), of "2 * i + 1"] by simp_all
    show "x ! i = real_of_int x_ub \<longleftrightarrow> rand_seq w (rand_calls w + 2 * i) = RAND_MAX w"
      using cells that draw_is_bound_iff [OF assms(1,3), of "2 * i"] by simp
    show "draw w (2 * i + 1) noise_ub = real_of_int noise_ub \<longleftrightarrow>
          rand_seq w (rand_calls w + 2 * i + 1) = RAND_MAX w"
      using draw_is_bound_iff [OF assms(1,4), of "2 * i + 1"] by (simp add: add.assoc)
  qed
  with run len show ?thesis by blast
qed

theorem get_random_data_closed_ranges_witness:
  "libc_ok \<lparr>RAND_MAX = 32767, CLOCKS_PER_SEC = 1000000, rand_seq = (\<lambda>k. 32767), rand_calls = 0,
      clock_seq = (\<lambda>k. 0), clock_calls = 0\<rparr> \<and> (1::int) \<le> 1 \<and> (0::int) < 20 \<and> (0::int) < 1 \<and>
   (\<exists>x y w'. get_random_data 1 \<lparr>a = 4, b = 2\<rparr> 20 1
       \<lparr>RAND_MAX = 32767, CLOCKS_PER_SEC = 1000000, rand_seq = (\<lambda>k. 32767), rand_calls = 0,
        clock_seq = (\<lambda>k. 0), clock_calls = 0\<rparr> = Inr ((x, y), w') \<and>
      length x = 1 \<and> length y = 1 \<and>
      0 \<le> x ! 0 \<and> x ! 0 \<le> 20 \<and> 0 \<le> y ! 0 - (4 * x ! 0 + 2) \<and> y ! 0 - (4 * x ! 0 + 2) \<le> 1)"
proof -
  have ok: "libc_ok \<lparr>RAND_MAX = 32767, CLOCKS_PER_SEC = 1000000, rand_seq = (\<lambda>k. 32767), rand_calls = 0,
      clock_seq = (\<lambda>k. 0), clock_calls = 0\<rparr>"
    by (simp add: libc_ok_def)
  have h: "(1::int) \<le> 1" "(0::int) < 20" "(0::int) < 1"
    by simp_all
  from get_random_data_closed_ranges [OF ok h, of "\<lparr>a = 4, b = 2\<rparr>"]
  obtain x y w' where
    "get_random_data 1 \<lparr>a = 4, b = 2\<rparr> 20 1
       \<lparr>RAND_MAX = 32767, CLOCKS_PER_SEC = 1000000, rand_seq = (\<lambda>k. 32767), rand_calls = 0,
        clock_seq = (\<lambda>k. 0), clock_calls = 0\<rparr> = Inr ((x, y), w')"
    "length x = 1" "length y = 1"
    "\<exists>e. y ! 0 = 4 * x ! 0 + 2 + e \<and> 0 \<le> x ! 0 \<and> x ! 0 \<le> 20 \<and> 0 \<le> e \<and> e \<le> 1"
    by fastforce
  then show ?thesis
    using ok by fastforce
qed

text \<open>
  C4 as first stated, with the half-open intervals \<open>[0, x_ub)\<close> and \<open>[0, noise_ub)\<close>,
  fails: when \<open>rand\<close> returns \<open>RAND_MAX\<close>, which the C library allows, the quotient
  is 1, the generated \<open>x\<close> is the bound 20 itself, and the noise \<open>83 - (4 * 20 + 2)\<close>
  is the bound 1 itself.
\<close>

theorem get_random_data_reaches_upper_bounds:
  "libc_ok \<lparr>RAND_MAX = 32767, CLOCKS_PER_SEC = 1000000, rand_seq = (\<lambda>k. 32767), rand_calls = 0,
      clock_seq = (\<lambda>k. 0), clock_calls = 0\<rparr> \<and>
   get_random_data 1 \<lparr>a = 4, b = 2\<rparr> 20 1
     \<lparr>RAND_MAX = 32767, CLOCKS_PER_SEC = 1000000, rand_seq = (\<lambda>k. 32767), rand_calls = 0,
      clock_seq = (\<lambda>k. 0), clock_calls = 0\<rparr>
   = Inr (([20], [83]),
     \<lparr>RAND_MAX = 32767, CLOCKS_PER_SEC = 1000000, rand_seq = (\<lambda>k. 32767), rand_calls = 2,
      clock_seq = (\<lambda>k. 0), clock_calls = 0\<rparr>) \<and>
   \<not> ([20::real] ! 0 < real_of_int 20) \<and>
   \<not> ([83::real] ! 0 - (a \<lparr>a = 4, b = 2\<rparr> * [20::real] ! 0 + b \<lparr>a = 4, b = 2\<rparr>) < real_of_int 1)"
  by (simp add: libc_ok_def get_random_data_def malloc_doubles_def get_random_data_loop.simps
      get_random_number_def rand_def double_div_def store_def load_def)

subsection \<open>The program\<close>

lemma constants_positive:
  "1 \<le> DATA_SIZE" "0 \<le> STEPS" "0 < X_UB" "0 < NOISE_UB"
  by (simp_all add: DATA_SIZE_def STEPS_def X_UB_def NOISE_UB_def)

lemma main_result:
  assumes "libc_ok w"
  shows "\<exists>data.
     get_random_data DATA_SIZE \<lparr>a = real_of_int TRUE_A, b = real_of_int TRUE_B\<rparr> X_UB NOISE_UB w
       = Inr (data, w\<lparr>rand_calls := rand_calls w + 2 * nat DATA_SIZE\<rparr>) \<and>
     has_observations data DATA_SIZE \<and>
     main w = Inr
       (\<lparr>printed_n = DATA_SIZE, printed_steps = STEPS,
         printed_loss = mean_squared_error data DATA_SIZE
           ((update_formula data DATA_SIZE LEARNING_RATE ^^ nat STEPS) \<lparr>a = 1, b = 0\<rparr>),
         printed_coefs = (update_formula data DATA_SIZE LEARNING_RATE ^^ nat STEPS) \<lparr>a = 1, b = 0\<rparr>,
         printed_cpu_time =
           real_of_int (clock_seq w (Suc (clock_calls w)) - clock_seq w (clock_calls w))
             / real_of_int (CLOCKS_PER_SEC w)\<rparr>,
        w\<lparr>rand_calls := rand_calls w + 2 * nat DATA_SIZE, clock_calls := Suc (Suc (clock_calls w))\<rparr>)"
proof -
  have rm: "RAND_MAX w \<noteq> 0" and cps: "CLOCKS_PER_SEC w \<noteq> 0"
    using assms by (simp_all add: libc_ok_def)
  from get_random_data_draws [OF rm, of DATA_SIZE "\<lparr>a = real_of_int TRUE_A, b = real_of_int TRUE_B\<rparr>" X_UB NOISE_UB]
  obtain x y where
    gen: "get_random_data DATA_SIZE \<lparr>a = real_of_int TRUE_A, b = real_of_int TRUE_B\<rparr> X_UB NOISE_UB w =
            Inr ((x, y), w\<lparr>rand_calls := rand_calls w + 2 * nat DATA_SIZE\<rparr>)"
    and len: "length x = nat DATA_SIZE" "length y = nat DATA_SIZE"
    by blast
  have obs: "has_observations (x, y) DATA_SIZE"
    using len constants_positive(1) by (simp add: has_observations_def)
  have loop: "main_loop (x, y) DATA_SIZE LEARNING_RATE STEPS 0 \<lparr>a = 1, b = 0\<rparr> =
      Inr (STEPS, (update_formula (x, y) DATA_SIZE LEARNING_RATE ^^ nat STEPS) \<lparr>a = 1, b = 0\<rparr>)"
    using main_loop_iterates [OF obs order_refl constants_positive(2)] by simp
  have loss: "\<And>c. get_loss (x, y) DATA_SIZE c = Inr (mean_squared_error (x, y) DATA_SIZE c)"
    using obs by (rule get_loss_inr)
  have "main w = Inr
       (\<lparr>printed_n = DATA_SIZE, printed_steps = STEPS,
         printed_loss = mean_squared_error (x, y) DATA_SIZE
           ((update_formula (x, y) DATA_SIZE LEARNING_RATE ^^ nat STEPS) \<lparr>a = 1, b = 0\<rparr>),
         printed_coefs = (update_formula (x, y) DATA_SIZE LEARNING_RATE ^^ nat STEPS) \<lparr>a = 1, b = 0\<rparr>,
         printed_cpu_time =
           real_of_int (clock_seq w (Suc (clock_calls w)) - clock_seq w (clock_calls w))
             / real_of_int (CLOCKS_PER_SEC w)\<rparr>,
        w\<lparr>rand_calls := rand_calls w + 2 * nat DATA_SIZE, clock_calls := Suc (Suc (clock_calls w))\<rparr>)"
    by (simp add: main_def Let_def gen loop loss clock_def double_div_def cps)
  with gen obs show ?thesis by blast
qed

text \<open>
  C10. With a library that keeps the promises of the C standard, \<open>main\<close> returns, and
  the coefficients it prints are the \<open>STEPS\<close>-fold iterate of the update from the
  starting point \<open>a = 1, b = 0\<close> on the generated dataset; that starting point is
  neither the true coefficients nor the origin.
\<close>

theorem main_starts_from_one_zero:
  assumes "libc_ok w"
  shows "\<exists>data w1 rep w'.
     get_random_data DATA_SIZE \<lparr>a = real_of_int TRUE_A, b = real_of_int TRUE_B\<rparr> X_UB NOISE_UB w
       = Inr (data, w1) \<and>
     main w = Inr (rep, w') \<and>
     printed_steps rep = STEPS \<and>
     printed_coefs rep =
       (update_formula data DATA_SIZE LEARNING_RATE ^^ nat STEPS) \<lparr>a = 1, b = 0\<rparr> \<and>
     \<lparr>a = 1, b = 0\<rparr> \<noteq> \<lparr>a = real_of_int TRUE_A, b = real_of_int TRUE_B\<rparr> \<and>
     \<lparr>a = 1, b = 0\<rparr> \<noteq> \<lparr>a = 0, b = 0\<rparr>"
proof -
  from main_result [OF assms] obtain data where
    gen: "get_random_data DATA_SIZE \<lparr>a = real_of_int TRUE_A, b = real_of_int TRUE_B\<rparr> X_UB NOISE_UB w
       = Inr (data, w\<lparr>rand_calls := rand_calls w + 2 * nat DATA_SIZE\<rparr>)"
    and run: "main w = Inr
       (\<lparr>printed_n = DATA_SIZE, printed_steps = STEPS,
         printed_loss = mean_squared_error data DATA_SIZE
           ((update_formula data DATA_SIZE LEARNING_RATE ^^ nat STEPS) \<lparr>a = 1, b = 0\<rparr>),
         printed_coefs = (update_formula data DATA_SIZE LEARNING_RATE ^^ nat STEPS) \<lparr>a = 1, b = 0\<rparr>,
         printed_cpu_time =
           real_of_int (clock_seq w (Suc (clock_calls w)) - clock_seq w (clock_calls w))
             / real_of_int (CLOCKS_PER_SEC w)\<rparr>,
        w\<lparr>rand_calls := rand_calls w + 2 * nat DATA_SIZE, clock_calls := Suc (Suc (clock_calls w))\<rparr>)"
    by blast
  have ne: "\<lparr>a = 1, b = 0\<rparr> \<noteq> \<lparr>a = real_of_int TRUE_A, b = real_of_int TRUE_B\<rparr>"
           "\<lparr>a = 1, b = 0\<rparr> \<noteq> \<lparr>a = 0, b = (0::real)\<rparr>"
    by (simp_all add: TRUE_A_def)
  show ?thesis
    apply (rule exI [of _ data])
    apply (rule exI [of _ "w\<lparr>rand_calls := rand_calls w + 2 * nat DATA_SIZE\<rparr>"])
    using gen run ne by simp
qed

theorem main_starts_from_one_zero_witness:
  "libc_ok \<lparr>RAND_MAX = 32767, CLOCKS_PER_SEC = 1000000, rand_seq = (\<lambda>k. int (k mod 7)),
             rand_calls = 0, clock_seq = (\<lambda>k. 5 * int k), clock_calls = 0\<rparr> \<and>
   (\<exists>data w1 rep w'.
     get_random_data DATA_SIZE \<lparr>a = real_of_int TRUE_A, b = real_of_int TRUE_B\<rparr> X_UB NOISE_UB
        \<lparr>RAND_MAX = 32767, CLOCKS_PER_SEC = 1000000, rand_seq = (\<lambda>k. int (k mod 7)),
             rand_calls = 0, clock_seq = (\<lambda>k. 5 * int k), clock_calls = 0\<rparr>
       = Inr (data, w1) \<and>
     main \<lparr>RAND_MAX = 32767, CLOCKS_PER_SEC = 1000000, rand_seq = (\<lambda>k. int (k mod 7)),
             rand_calls = 0, clock_seq = (\<lambda>k. 5 * int k), clock_calls = 0\<rparr> = Inr (rep, w') \<and>
     printed_steps rep = STEPS \<and>
     printed_coefs rep =
       (update_formula data DATA_SIZE LEARNING_RATE ^^ nat STEPS) \<lparr>a = 1, b = 0\<rparr> \<and>
     \<lparr>a = 1, b = 0\<rparr> \<noteq> \<lparr>a = real_of_int TRUE_A, b = real_of_int TRUE_B\<rparr> \<and>
     \<lparr>a = 1, b = 0\<rparr> \<noteq> \<lparr>a = 0, b = 0\<rparr>)"
proof -
  have ok: "libc_ok \<lparr>RAND_MAX = 32767, CLOCKS_PER_SEC = 1000000, rand_seq = (\<lambda>k. int (k mod 7)),
             rand_calls = 0, clock_seq = (\<lambda>k. 5 * int k), clock_calls = 0\<rparr>"
  proof -
    have "int (k mod 7) \<le> 32767" for k :: nat
      using pos_mod_bound [of 7 "int k"] by (simp add: zmod_int)
    then show ?thesis by (simp add: libc_ok_def)
  qed
  from ok main_starts_from_one_zero [OF ok] show ?thesis
    by (rule conjI)
qed

end
